theory Spec2Isabelle
  imports Complex_Main "HOL-Library.Word" "HOL-Library.List_Lexorder" "HOL-Library.AList"
begin

section \<open>Strings and objects of the host language\<close>

text \<open>
  A JavaScript string is a sequence of 16-bit code units: \<open>length\<close>, comparison and
  the default order of \<open>Array.prototype.sort\<close> all work on code units. The rule names
  and labels of \<^verbatim>\<open>common/data/matchers.js\<close> are mostly Korean, so a byte string would
  not do. \<open>js\<close> embeds an ASCII literal.
\<close>

type_synonym jsstring = "16 word list"

definition js :: "string \<Rightarrow> jsstring" where
  "js s = map of_char s"

text \<open>
  An object used as a dictionary is the list of its own properties in creation order,
  with distinct keys. \<open>obj_get\<close> reads an own property (\<open>None\<close> when the object
  has none of that key) and \<open>obj_set\<close> creates or overwrites one: overwriting keeps
  the position of the key, creating appends (\<open>AList.update\<close> does exactly that).

  The expressions \<open>obj[key]\<close> and \<open>obj[key] = value\<close> do more than that when the
  key names a member of \<open>Object.prototype\<close>: a read that finds no own property
  gives the inherited member, and an assignment to \<open>__proto__\<close> replaces the
  prototype of the object and creates no property. The registration code is modelled
  with these effects on the keys that are rule names (see \<open>get_property\<close> and
  \<open>register\<close> below). A target or a group of the table that is named like a member
  of \<open>Object.prototype\<close> would make the code write into objects shared by the whole
  program; the model does not follow that, it reads targets and groups as own
  properties, which is what the code does for every other key (\<open>ordinary_keys\<close>).
\<close>

type_synonym 'v jsobj = "(jsstring \<times> 'v) list"

definition obj_get :: "'v jsobj \<Rightarrow> jsstring \<Rightarrow> 'v option" where
  "obj_get obj k = map_of obj k"

definition obj_set :: "'v jsobj \<Rightarrow> jsstring \<Rightarrow> 'v \<Rightarrow> 'v jsobj" where
  "obj_set obj k v = AList.update k v obj"

text \<open>
  Enumeration (\<open>Object.keys\<close>, \<open>for ... in\<close>) does not simply follow creation order:
  keys that are array indices (the canonical decimal form of an integer below
  \<open>2^32 - 1\<close>) come first, in ascending numeric order, and the other keys follow in
  creation order.
\<close>

definition is_digit :: "16 word \<Rightarrow> bool" where
  "is_digit c \<longleftrightarrow> 0x30 \<le> c \<and> c \<le> 0x39"

definition digits_value :: "jsstring \<Rightarrow> nat" where
  "digits_value s = foldl (\<lambda>n c. 10 * n + (unat c - 48)) 0 s"

definition is_array_index :: "jsstring \<Rightarrow> bool" where
  "is_array_index k \<longleftrightarrow>
     k \<noteq> [] \<and> list_all is_digit k \<and> (k = [0x30] \<or> hd k \<noteq> 0x30) \<and>
     digits_value k < 2 ^ 32 - 1"

definition obj_keys :: "'v jsobj \<Rightarrow> jsstring list" where
  "obj_keys obj =
     (let ks = map fst obj
      in sort_key digits_value (filter is_array_index ks) @
         filter (\<lambda>k. \<not> is_array_index k) ks)"

text \<open>The members of \<open>Object.prototype\<close>: eleven functions and the accessor \<open>__proto__\<close>.\<close>

definition object_prototype_methods :: "jsstring list" where
  "object_prototype_methods =
     [js ''constructor'', js ''__defineGetter__'', js ''__defineSetter__'', js ''hasOwnProperty'',
      js ''__lookupGetter__'', js ''__lookupSetter__'', js ''isPrototypeOf'',
      js ''propertyIsEnumerable'', js ''toString'', js ''valueOf'', js ''toLocaleString'']"

definition object_prototype_members :: "jsstring list" where
  "object_prototype_members = js ''__proto__'' # object_prototype_methods"

section \<open>Regular expressions\<close>

text \<open>
  The submatcher generators build their patterns with \<open>new RegExp(text, "i")\<close>, so
  the model needs the pattern language itself: a parser from pattern text to syntax
  trees and the matching of a tree against a subject. The patterns are read as the
  language reads them without the \<open>u\<close> flag (with the extensions for web browsers).
  The model covers literal characters, \<open>.\<close>, \<open>^\<close>, \<open>$\<close>, \<open>|\<close>, groups,
  lookaheads, the quantifiers \<open>*\<close>, \<open>+\<close>, \<open>?\<close>, \<open>{n}\<close>, \<open>{n,}\<close>,
  \<open>{n,m}\<close>, braces and closing brackets that stand for themselves, and the escape
  of a character that is not a letter or a digit, and \<open>\t\<close>, \<open>\n\<close>, \<open>\v\<close>,
  \<open>\f\<close>, \<open>\r\<close>. For a pattern with anything else (a character class, another
  escaped letter or digit, a named group, a lookbehind) the result is \<open>Unsupported\<close>:
  the model says nothing about such a pattern, neither that the constructor throws nor
  what the expression matches. A pattern that the language rejects is a
  \<open>SyntaxError\<close>.
\<close>

subsection \<open>Syntax trees and matching\<close>

text \<open>
  Only \<open>RegExp.prototype.test\<close> is used on these patterns, so capture groups need
  no bookkeeping: a group stands for its contents. \<open>ends ic s r i\<close> lists the
  positions at which a match of \<open>r\<close> that starts at position \<open>i\<close> of \<open>s\<close> can end.
\<close>

datatype re =
    Empty
  | Chr "16 word"
  | Dot
  | Bol
  | Eol
  | Seq re re
  | Alt re re
  | Look bool re
  | Rep nat "nat option" re

text \<open>
  With the \<open>i\<close> flag two code units match when their canonical forms agree. The
  canonical form of a code unit is its upper-case form, unless that form is not a
  single code unit or is an ASCII character while the code unit is not. On the ASCII
  characters the upper-case form is known; for the others it comes from the Unicode
  character database, which is no part of the program: \<open>toUpperCase\<close> stands for
  that table (it gives the code unit itself when the upper-case form is not a single
  code unit), and everything below holds whatever the table is.
\<close>

definition canonicalize :: "bool \<Rightarrow> (16 word \<Rightarrow> 16 word) \<Rightarrow> 16 word \<Rightarrow> 16 word" where
  "canonicalize ic toUpperCase c =
     (if \<not> ic then c
      else if c < 0x80 then (if 0x61 \<le> c \<and> c \<le> 0x7A then c - 0x20 else c)
      else (let u = toUpperCase c in if u < 0x80 then c else u))"

definition line_terminator :: "16 word \<Rightarrow> bool" where
  "line_terminator c \<longleftrightarrow> c = 0x0A \<or> c = 0x0D \<or> c = 0x2028 \<or> c = 0x2029"

text \<open>
  A quantifier first runs its mandatory iterations; further iterations must consume
  at least one code unit, so at most \<open>length s\<close> of them can follow, which is the fuel
  given by \<open>ends\<close>.
\<close>

definition dec :: "nat option \<Rightarrow> nat option" where
  "dec mx = map_option (\<lambda>n. n - 1) mx"

fun repeat :: "(nat \<Rightarrow> nat list) \<Rightarrow> nat \<Rightarrow> nat \<Rightarrow> nat option \<Rightarrow> nat \<Rightarrow> nat list" where
  "repeat step fuel (Suc mn) mx i = concat (map (repeat step fuel mn (dec mx)) (step i))"
| "repeat step 0 0 mx i = [i]"
| "repeat step (Suc fuel) 0 mx i =
     i # (if mx = Some 0 then []
          else concat (map (repeat step fuel 0 (dec mx)) (filter (\<lambda>j. j \<noteq> i) (step i))))"

primrec ends :: "bool \<Rightarrow> (16 word \<Rightarrow> 16 word) \<Rightarrow> jsstring \<Rightarrow> re \<Rightarrow> nat \<Rightarrow> nat list" where
  "ends ic up s Empty i = [i]"
| "ends ic up s (Chr c) i =
     (if i < length s \<and> canonicalize ic up (s ! i) = canonicalize ic up c then [Suc i] else [])"
| "ends ic up s Dot i = (if i < length s \<and> \<not> line_terminator (s ! i) then [Suc i] else [])"
| "ends ic up s Bol i = (if i = 0 then [i] else [])"
| "ends ic up s Eol i = (if i = length s then [i] else [])"
| "ends ic up s (Seq a b) i = concat (map (ends ic up s b) (ends ic up s a i))"
| "ends ic up s (Alt a b) i = ends ic up s a i @ ends ic up s b i"
| "ends ic up s (Look pos a) i = (if (ends ic up s a i \<noteq> []) = pos then [i] else [])"
| "ends ic up s (Rep mn mx a) i = repeat (ends ic up s a) (length s) mn mx i"


subsection \<open>Parsing a pattern\<close>

text \<open>
  The parser reads the pattern one code unit at a time. Its state holds the finished
  alternatives and the terms of the current alternative of the group being read (both
  latest first), and for every enclosing group its kind and what had been read of the
  group around it.
\<close>

datatype group_kind = Plain | Lookahead bool

datatype last_term = NoTerm | Atom | Quantified | Lazy | Assertion | Looked

datatype mode = Normal | Escape | Open | OpenQ | Brace jsstring

datatype regexp_error = SyntaxError | Unsupported

record pstate =
  mode :: mode
  prev :: last_term
  alts :: "re list"
  cur :: "re list"
  stack :: "(group_kind \<times> re list \<times> re list) list"

definition seq_of :: "re list \<Rightarrow> re" where
  "seq_of ts = foldr Seq (rev ts) Empty"

fun disj_of :: "re list \<Rightarrow> re" where
  "disj_of [] = Empty"
| "disj_of [a] = a"
| "disj_of (a # b # r) = Alt a (disj_of (b # r))"

definition close_group :: "re list \<Rightarrow> re list \<Rightarrow> re" where
  "close_group as ts = disj_of (rev (seq_of ts # as))"


definition alphanumeric :: "16 word \<Rightarrow> bool" where
  "alphanumeric c \<longleftrightarrow>
     (0x30 \<le> c \<and> c \<le> 0x39) \<or> (0x41 \<le> c \<and> c \<le> 0x5A) \<or> (0x61 \<le> c \<and> c \<le> 0x7A)"

text \<open>\<open>\t\<close>, \<open>\n\<close>, \<open>\v\<close>, \<open>\f\<close> and \<open>\r\<close>.\<close>

definition control_escape :: "16 word \<Rightarrow> 16 word option" where
  "control_escape c =
     (if c = 0x74 then Some 0x09
      else if c = 0x6E then Some 0x0A
      else if c = 0x76 then Some 0x0B
      else if c = 0x66 then Some 0x0C
      else if c = 0x72 then Some 0x0D
      else None)"

definition add_term :: "re \<Rightarrow> last_term \<Rightarrow> pstate \<Rightarrow> regexp_error + pstate" where
  "add_term t l st = Inr (st\<lparr>mode := Normal, prev := l, cur := t # cur st\<rparr>)"

text \<open>
  A quantifier applies to the atom before it, or to a lookahead; anywhere else there
  is nothing to repeat.
\<close>

definition quantify :: "nat \<Rightarrow> nat option \<Rightarrow> pstate \<Rightarrow> regexp_error + pstate" where
  "quantify mn mx st =
     (if prev st = Atom \<or> prev st = Looked then
        (case cur st of
           [] \<Rightarrow> Inl SyntaxError
         | t # ts \<Rightarrow> Inr (st\<lparr>mode := Normal, prev := Quantified, cur := Rep mn mx t # ts\<rparr>))
      else Inl SyntaxError)"

text \<open>
  After \<open>{\<close> the parser collects digits and at most one comma (after a digit) as
  long as they can still make up a quantifier. With a closing brace they are one;
  \<open>bounds\<close> reads its numbers. Otherwise the brace and what was collected stand for
  themselves, and \<open>flush\<close> adds them as literal characters.
\<close>

definition bounds :: "jsstring \<Rightarrow> nat \<times> nat option" where
  "bounds raw =
     (let mn = takeWhile is_digit raw; rest = dropWhile is_digit raw
      in (digits_value mn,
          if rest = [] then Some (digits_value mn)
          else if tl rest = [] then None
          else Some (digits_value (tl rest))))"

definition flush :: "jsstring \<Rightarrow> pstate \<Rightarrow> pstate" where
  "flush raw st = st\<lparr>mode := Normal, prev := Atom, cur := rev (map Chr (0x7B # raw)) @ cur st\<rparr>"

definition push :: "group_kind \<Rightarrow> pstate \<Rightarrow> pstate" where
  "push k st =
     \<lparr>mode = Normal, prev = NoTerm, alts = [], cur = [], stack = (k, alts st, cur st) # stack st\<rparr>"

definition pop :: "pstate \<Rightarrow> regexp_error + pstate" where
  "pop st =
     (case stack st of
        [] \<Rightarrow> Inl SyntaxError
      | (k, palts, pcur) # rest \<Rightarrow>
          (case k of
             Plain \<Rightarrow>
               Inr \<lparr>mode = Normal, prev = Atom, alts = palts,
                    cur = close_group (alts st) (cur st) # pcur, stack = rest\<rparr>
           | Lookahead b \<Rightarrow>
               Inr \<lparr>mode = Normal, prev = Looked, alts = palts,
                    cur = Look b (close_group (alts st) (cur st)) # pcur, stack = rest\<rparr>))"

definition step_normal :: "16 word \<Rightarrow> pstate \<Rightarrow> regexp_error + pstate" where
  "step_normal c st =
     (if c = 0x5C then Inr (st\<lparr>mode := Escape\<rparr>)
      else if c = 0x28 then Inr (st\<lparr>mode := Open\<rparr>)
      else if c = 0x29 then pop st
      else if c = 0x7C then
        Inr (st\<lparr>prev := NoTerm, alts := seq_of (cur st) # alts st, cur := []\<rparr>)
      else if c = 0x5E then add_term Bol Assertion st
      else if c = 0x24 then add_term Eol Assertion st
      else if c = 0x2E then add_term Dot Atom st
      else if c = 0x2A then quantify 0 None st
      else if c = 0x2B then quantify 1 None st
      else if c = 0x3F then
        (if prev st = Quantified then Inr (st\<lparr>prev := Lazy\<rparr>) else quantify 0 (Some 1) st)
      else if c = 0x7B then Inr (st\<lparr>mode := Brace []\<rparr>)
      else if c = 0x5B then Inl Unsupported
      else add_term (Chr c) Atom st)"

definition step :: "16 word \<Rightarrow> pstate \<Rightarrow> regexp_error + pstate" where
  "step c st =
     (case mode st of
        Normal \<Rightarrow> step_normal c st
      | Escape \<Rightarrow>
          (case control_escape c of
             Some v \<Rightarrow> add_term (Chr v) Atom st
           | None \<Rightarrow> if alphanumeric c then Inl Unsupported else add_term (Chr c) Atom st)
      | Open \<Rightarrow>
          (if c = 0x3F then Inr (st\<lparr>mode := OpenQ\<rparr>) else step_normal c (push Plain st))
      | OpenQ \<Rightarrow>
          (if c = 0x3A then Inr (push Plain st)
           else if c = 0x3D then Inr (push (Lookahead True) st)
           else if c = 0x21 then Inr (push (Lookahead False) st)
           else Inl Unsupported)
      | Brace raw \<Rightarrow>
          (if is_digit c \<or> (c = 0x2C \<and> raw \<noteq> [] \<and> 0x2C \<notin> set raw) then
             Inr (st\<lparr>mode := Brace (raw @ [c])\<rparr>)
           else if c = 0x7D \<and> raw \<noteq> [] then
             (case bounds raw of
                (mn, mx) \<Rightarrow>
                  if (case mx of None \<Rightarrow> False | Some m \<Rightarrow> m < mn) then Inl SyntaxError
                  else quantify mn mx st)
           else step_normal c (flush raw st)))"

fun run :: "jsstring \<Rightarrow> pstate \<Rightarrow> regexp_error + pstate" where
  "run [] st = Inr st"
| "run (c # cs) st = (case step c st of Inl e \<Rightarrow> Inl e | Inr st' \<Rightarrow> run cs st')"

definition start :: pstate where
  "start = \<lparr>mode = Normal, prev = NoTerm, alts = [], cur = [], stack = []\<rparr>"

definition finish :: "pstate \<Rightarrow> regexp_error + re" where
  "finish st =
     (case mode st of
        Normal \<Rightarrow>
          (if stack st = [] then Inr (close_group (alts st) (cur st)) else Inl SyntaxError)
      | Brace raw \<Rightarrow>
          (if stack st = [] then Inr (close_group (alts st) (cur (flush raw st)))
           else Inl SyntaxError)
      | _ \<Rightarrow> Inl SyntaxError)"

definition parse :: "jsstring \<Rightarrow> regexp_error + re" where
  "parse p = (case run p start of Inl e \<Rightarrow> Inl e | Inr st \<Rightarrow> finish st)"

subsection \<open>RegExp objects\<close>

text \<open>
  A RegExp object: the pattern text that was given to the constructor, the \<open>i\<close>
  flag and the syntax tree of the pattern. \<open>new RegExp(pattern, flags)\<close> throws a
  \<open>SyntaxError\<close> for a malformed pattern. Only the flags \<open>""\<close> and \<open>"i"\<close> are
  covered.
\<close>

record jsregexp =
  pattern :: jsstring
  ignoreCase :: bool
  prog :: re

definition new_RegExp :: "jsstring \<Rightarrow> jsstring \<Rightarrow> regexp_error + jsregexp" where
  "new_RegExp p flags =
     (if flags = [] \<or> flags = js ''i'' then
        (case parse p of
           Inl e \<Rightarrow> Inl e
         | Inr r \<Rightarrow> Inr \<lparr>pattern = p, ignoreCase = (flags = js ''i''), prog = r\<rparr>)
      else Inl Unsupported)"

text \<open>\<open>RegExp.prototype.test\<close>: some match starts somewhere in the subject.\<close>

definition regexp_test :: "(16 word \<Rightarrow> 16 word) \<Rightarrow> jsregexp \<Rightarrow> jsstring \<Rightarrow> bool" where
  "regexp_test up r s =
     list_ex (\<lambda>i. ends (ignoreCase r) up s (prog r) i \<noteq> []) [0..<Suc (length s)]"

section \<open>Submatcher generators\<close>

text \<open>
  A submatcher as the generators and the table write it. \<open>radioGroup\<close> and
  \<open>cssClasses\<close> are optional properties; \<open>description\<close> is read from a label map
  and is \<open>undefined\<close> when the map has no entry.
\<close>

datatype submatcher_type = NumberSub | TextSub | OptionSub | SeparatorSub

record submatcher =
  type :: submatcher_type
  description :: "jsstring option"
  regex :: "jsregexp option"
  radioGroup :: "jsstring option"
  cssClasses :: "jsstring list option"
  groups :: "nat list"

text \<open>
  The variables of the enclosing function scope that the generators read: the label
  maps and the two taxonomy tables.
\<close>

record module_state =
  orbKoMap :: "jsstring jsobj"
  typeKoMap :: "jsstring jsobj"
  classKoMap :: "jsstring jsobj"
  types :: "jsstring list"
  classes :: "jsstring list"


text \<open>
  A parameter with a default value takes the default when the argument is omitted or
  \<open>undefined\<close>, here \<open>None\<close>.
\<close>

definition default_arg :: "'a \<Rightarrow> 'a option \<Rightarrow> 'a" where
  "default_arg d x = (case x of None \<Rightarrow> d | Some v \<Rightarrow> v)"

text \<open>
  \<open>new RegExp\<close> throws on a malformed pattern, which leaves the generator at once:
  the first error of the loop is the result.
\<close>

fun collect :: "('e + 'a) list \<Rightarrow> 'e + 'a list" where
  "collect [] = Inr []"
| "collect (x # xs) =
     (case x of
        Inl e \<Rightarrow> Inl e
      | Inr v \<Rightarrow> (case collect xs of Inl e \<Rightarrow> Inl e | Inr vs \<Rightarrow> Inr (v # vs)))"

text \<open>\<open>(includeUniversal ? "|" + universalRegex : "")\<close>\<close>

definition universal_suffix :: "bool \<Rightarrow> jsstring \<Rightarrow> jsstring" where
  "universal_suffix includeUniversal universalRegex =
     (if includeUniversal then js ''|'' @ universalRegex else [])"

text \<open>
  The object literal that every generator pushes:
  \<open>{type: "option", description, regex: new RegExp(pattern, "i"), cssClasses, groups}\<close>.
\<close>

definition option_submatcher ::
  "jsstring option \<Rightarrow> jsstring \<Rightarrow> jsstring list option \<Rightarrow> nat list \<Rightarrow>
   regexp_error + submatcher" where
  "option_submatcher desc pat css grps =
     (case new_RegExp pat (js ''i'') of
        Inl e \<Rightarrow> Inl e
      | Inr r \<Rightarrow>
          Inr \<lparr>type = OptionSub, description = desc, regex = Some r, radioGroup = None,
               cssClasses = css, groups = grps\<rparr>)"




definition rows :: "jsstring list" where
  "rows = [js ''Top'', js ''Middle'', js ''Bottom'']"

definition columns :: "jsstring list" where
  "columns = [js ''Left'', js ''Right'']"

definition rowKoMap :: "jsstring jsobj" where
  "rowKoMap =
     [(js ''Top'', [0xC0C1, 0xB2E8]), (js ''Middle'', [0xC911, 0xB2E8]),
      (js ''Bottom'', [0xD558, 0xB2E8])]"

definition colKoMap :: "jsstring jsobj" where
  "colKoMap = [(js ''Left'', [0xC88C, 0xCE21]), (js ''Right'', [0xC6B0, 0xCE21])]"

definition createPositionsSubmatchers ::
  "nat list \<Rightarrow> bool option \<Rightarrow> jsstring option \<Rightarrow> jsstring list option \<Rightarrow> bool option \<Rightarrow>
   module_state \<Rightarrow> (regexp_error + submatcher list) \<times> module_state" where
  "createPositionsSubmatchers grps includeUniversal universalRegex excludedSubmatchers
       useRowsAndColumns st =
     (let iu = default_arg True includeUniversal;
          ur = default_arg [0xBAA8, 0xB450] universalRegex;
          excluded = default_arg [] excludedSubmatchers;
          suffix = universal_suffix iu ur
      in (collect
           ((if default_arg True useRowsAndColumns then
               map (\<lambda>row.
                      option_submatcher (obj_get rowKoMap row) (row @ suffix)
                        (Some [js ''min-width-4'']) grps)
                 (filter (\<lambda>row. row \<notin> set excluded) rows) @
               map (\<lambda>col.
                      option_submatcher (obj_get colKoMap col) (col @ suffix)
                        (Some [js ''min-width-6'']) grps)
                 (filter (\<lambda>col. col \<notin> set excluded) columns)
             else
               [option_submatcher (Some [0xCE5C, 0xAD6C, 0x0020, 0xC120, 0xC7A5])
                  (js ''left column|top(?! right)|Friend Captain'' @ suffix)
                  (Some [js ''min-width-6'']) grps,
                option_submatcher (Some [0xC120, 0xC7A5])
                  (js ''right column|top(?! left)|(?:^|(?!end ).{4})Captain'' @ suffix)
                  (Some [js ''min-width-6'']) grps,
                option_submatcher (Some [0xC911, 0xB2E8, 0x0020, 0xC88C, 0xCE21])
                  (js ''left column|middle(?! right)'' @ suffix)
                  (Some [js ''min-width-6'']) grps,
                option_submatcher (Some [0xC911, 0xB2E8, 0x0020, 0xC6B0, 0xCE21])
                  (js ''right column|middle(?! left)'' @ suffix)
                  (Some [js ''min-width-6'']) grps,
                option_submatcher (Some [0xD558, 0xB2E8, 0x0020, 0xC88C, 0xCE21])
                  (js ''left column|bottom(?! right)'' @ suffix)
                  (Some [js ''min-width-6'']) grps,
                option_submatcher (Some [0xD558, 0xB2E8, 0x0020, 0xC6B0, 0xCE21])
                  (js ''right column|bottom(?! left)'' @ suffix)
                  (Some [js ''min-width-6'']) grps]) @
            (if js ''Adjacent'' \<in> set excluded then []
             else [option_submatcher (Some [0xC778, 0xC811]) (js ''adjacent'' @ suffix)
                     (Some [js ''min-width-4'']) grps]) @
            (if js ''Selected'' \<in> set excluded then []
             else [option_submatcher (Some [0xC120, 0xD0DD]) (js ''selected'' @ suffix)
                     (Some [js ''min-width-4'']) grps]) @
            (if js ''Self'' \<in> set excluded then []
             else [option_submatcher (Some [0xC790, 0xC2E0]) (js ''this|own|supported'' @ suffix)
                     (Some [js ''min-width-4'']) grps])),
          st))"

definition createUniversalSubmatcher ::
  "nat list \<Rightarrow> jsstring option \<Rightarrow> module_state \<Rightarrow>
   (regexp_error + submatcher list) \<times> module_state" where
  "createUniversalSubmatcher grps universalRegex st =
     (let ur = default_arg (js ''all|type'') universalRegex
      in (collect
           [option_submatcher (Some [0xBAA8, 0xB4E0, 0x0020, 0xC18D, 0xC131])
              (if ur = [] then js ''all|type'' else ur) None grps],
          st))"

subsection \<open>Notions used to state the properties of the generators\<close>





text \<open>
  What the state of the parser would be had the pattern begun with the alternative
  \<open>P\<close>: \<open>P\<close> is the first alternative of the outermost group.
\<close>

fun prepend_frames ::
  "re \<Rightarrow> re list \<Rightarrow> (group_kind \<times> re list \<times> re list) list \<Rightarrow>
   re list \<times> (group_kind \<times> re list \<times> re list) list" where
  "prepend_frames P a [] = (a @ [P], [])"
| "prepend_frames P a ((k, pa, pc) # rest) =
     (a, (k, fst (prepend_frames P pa rest), pc) # snd (prepend_frames P pa rest))"

definition prepend_alt :: "re \<Rightarrow> pstate \<Rightarrow> pstate" where
  "prepend_alt P st =
     st\<lparr>alts := fst (prepend_frames P (alts st) (stack st)),
        stack := snd (prepend_frames P (alts st) (stack st))\<rparr>"



text \<open>
  A pattern whose literal characters are all ASCII. What it matches does not depend
  on the case table.
\<close>

fun ascii_pattern :: "re \<Rightarrow> bool" where
  "ascii_pattern (Chr c) = (c < 0x80)"
| "ascii_pattern (Seq a b) = (ascii_pattern a \<and> ascii_pattern b)"
| "ascii_pattern (Alt a b) = (ascii_pattern a \<and> ascii_pattern b)"
| "ascii_pattern (Look pos a) = ascii_pattern a"
| "ascii_pattern (Rep mn mx a) = ascii_pattern a"
| "ascii_pattern r = True"



section \<open>Number submatchers\<close>

text \<open>
  Modelled from the spec: the extraction of the value of a number submatcher and its
  comparison with the number of a filter. The code that does it
  (\<open>CharUtils.checkMatcher\<close> in \<open>characters/js/utils.js\<close>) is not among the sources;
  the comment at the head of \<open>matchers.js\<close> and the specification describe it: a
  \<open>?\<close> in the captured text is replaced by \<open>0\<close>, the tokens \<open>completely\<close> and
  \<open>99+\<close> stand for infinity, anything else is read as a decimal number, and a text
  that is no number counts as unknown, that is zero. Finite numbers are rationals here.
\<close>

datatype number_value = Finite rat | PosInfinity

datatype comparator = Less | LessEq | Equal | GreaterEq | Greater

fun satisfies :: "number_value \<Rightarrow> comparator \<Rightarrow> rat \<Rightarrow> bool" where
  "satisfies (Finite x) Less n \<longleftrightarrow> x < n"
| "satisfies (Finite x) LessEq n \<longleftrightarrow> x \<le> n"
| "satisfies (Finite x) Equal n \<longleftrightarrow> x = n"
| "satisfies (Finite x) GreaterEq n \<longleftrightarrow> x \<ge> n"
| "satisfies (Finite x) Greater n \<longleftrightarrow> x > n"
| "satisfies PosInfinity Less n \<longleftrightarrow> False"
| "satisfies PosInfinity LessEq n \<longleftrightarrow> False"
| "satisfies PosInfinity Equal n \<longleftrightarrow> False"
| "satisfies PosInfinity GreaterEq n \<longleftrightarrow> True"
| "satisfies PosInfinity Greater n \<longleftrightarrow> True"

definition unknown_to_zero :: "jsstring \<Rightarrow> jsstring" where
  "unknown_to_zero s = map (\<lambda>c. if c = 0x3F then 0x30 else c) s"

definition parse_decimal :: "jsstring \<Rightarrow> rat option" where
  "parse_decimal s =
     (let whole = takeWhile (\<lambda>c. c \<noteq> 0x2E) s;
          frac = drop 1 (dropWhile (\<lambda>c. c \<noteq> 0x2E) s)
      in if list_all is_digit whole \<and> list_all is_digit frac \<and> (whole \<noteq> [] \<or> frac \<noteq> [])
         then Some (of_nat (digits_value whole) + of_nat (digits_value frac) / 10 ^ length frac)
         else None)"

definition extract_number :: "jsstring \<Rightarrow> number_value" where
  "extract_number token =
     (if token = js ''completely'' \<or> token = js ''99+'' then PosInfinity
      else case parse_decimal (unknown_to_zero token) of
             None \<Rightarrow> Finite 0
           | Some x \<Rightarrow> Finite x)"

section \<open>The rule table and the registry\<close>

text \<open>
  One entry of the table \<open>matchers\<close> (an object mapping each group to an array of
  rule specs). The regular expression of a rule is a literal of the table and is
  opaque to the registration code, so its type is a parameter; so is the type of the
  submatchers. \<open>submatchers\<close> and \<open>include\<close> are optional properties.
\<close>

record ('r, 's) matcher =
  name :: jsstring
  targets :: "jsstring list"
  regex :: 'r
  submatchers :: "'s list option"
  include' :: "nat list option"

text \<open>
  The shallow copy stored in the registry: the spread of the spec, with \<open>target\<close>
  and \<open>group\<close> added and \<open>name\<close> overwritten.
\<close>

record ('r, 's) matcherCopy = "('r, 's) matcher" +
  target :: jsstring
  group :: jsstring

type_synonym ('r, 's) registry = "('r, 's) matcherCopy jsobj jsobj jsobj"

text \<open>
  The state of the construction: \<open>window.matchers\<close> (the own properties of the
  objects), what \<open>console.error\<close> printed, and the prototypes of the group objects
  that were given one, by target and group. A group object that is not listed there
  has the prototype every object literal has, \<open>Object.prototype\<close>.
\<close>

record ('r, 's) build_state =
  window_matchers :: "('r, 's) registry"
  console :: "jsstring list"
  prototypes :: "jsstring \<times> jsstring \<rightharpoonup> ('r, 's) matcherCopy"

definition includeOldFilters :: bool where
  "includeOldFilters = False"

definition alphabeticalOrder :: bool where
  "alphabeticalOrder = True"

definition allTargets :: "jsstring list" where
  "allTargets =
     [js ''captain'', js ''special'', js ''superSpecialCriteria'', js ''superSpecial'',
      js ''swap'', js ''sailor'', js ''limit'', js ''potential'', js ''support'']"

subsection \<open>Legacy rules: \<open>/^old/i.test(matcher.name)\<close>\<close>

text \<open>
  Without the \<open>u\<close> flag, case-insensitive matching compares the upper-case forms of
  single code units, and a code unit from 128 on is never identified with an ASCII
  one. So exactly the ASCII letters in either case match \<open>o\<close>, \<open>l\<close> and \<open>d\<close>.
\<close>

definition is_old :: "jsstring \<Rightarrow> bool" where
  "is_old nm =
     (case nm of
        a # b # c # _ \<Rightarrow>
          (a = 0x6F \<or> a = 0x4F) \<and> (b = 0x6C \<or> b = 0x4C) \<and> (c = 0x64 \<or> c = 0x44)
      | _ \<Rightarrow> False)"

subsection \<open>Name templating: \<open>matcher.name.replace(/%target%/g, ...)\<close>\<close>

definition placeholder :: jsstring where
  "placeholder = js ''%target%''"

text \<open>
  \<open>String.prototype.replace\<close> expands \<open>$\<close> patterns of a replacement string:
  \<open>$$\<close> is a dollar sign, \<open>$&\<close> the matched text, \<open>$`\<close> the text before the match
  and \<open>$'\<close> the text after it. The pattern \<open>/%target%/g\<close> has no capture group, so
  \<open>$1\<close> ... \<open>$99\<close> and \<open>$<\<close> stay as they are.
\<close>

fun get_substitution ::
  "jsstring \<Rightarrow> jsstring \<Rightarrow> jsstring \<Rightarrow> jsstring \<Rightarrow> jsstring" where
  "get_substitution matched before after [] = []"
| "get_substitution matched before after [c] = [c]"
| "get_substitution matched before after (c # d # r) =
     (if c = 0x24 then
        (if d = 0x24 then 0x24 # get_substitution matched before after r
         else if d = 0x26 then matched @ get_substitution matched before after r
         else if d = 0x60 then before @ get_substitution matched before after r
         else if d = 0x27 then after @ get_substitution matched before after r
         else c # get_substitution matched before after (d # r))
      else c # get_substitution matched before after (d # r))"

text \<open>
  A global replace of a literal, non-empty pattern: scan from the left, replace each
  match and continue after it. \<open>before\<close> is the part of the subject already passed.
\<close>

function replace_global ::
  "jsstring \<Rightarrow> jsstring \<Rightarrow> jsstring \<Rightarrow> jsstring \<Rightarrow> jsstring" where
  "replace_global pat repl before s =
     (if pat \<noteq> [] \<and> take (length pat) s = pat then
        get_substitution pat before (drop (length pat) s) repl @
        replace_global pat repl (before @ pat) (drop (length pat) s)
      else (case s of
              [] \<Rightarrow> []
            | c # cs \<Rightarrow> c # replace_global pat repl (before @ [c]) cs))"
  by pat_completeness auto
termination
proof (relation "measure (\<lambda>(pat, repl, before, s). length s)")
  show "wf (measure (\<lambda>(pat, repl, before, s). length s))"
    by simp
next
  fix pat repl before s :: jsstring
  assume "pat \<noteq> [] \<and> take (length pat) s = pat"
  then have "s \<noteq> []" and "0 < length pat"
    by auto
  then show "((pat, repl, before @ pat, drop (length pat) s), (pat, repl, before, s))
      \<in> measure (\<lambda>(pat, repl, before, s). length s)"
    by (cases s) auto
next
  fix pat repl before s :: jsstring and c cs
  assume "s = c # cs"
  then show "((pat, repl, before @ [c], cs), (pat, repl, before, s))
      \<in> measure (\<lambda>(pat, repl, before, s). length s)"
    by simp
qed

declare replace_global.simps [simp del]

definition newName :: "jsstring \<Rightarrow> jsstring \<Rightarrow> jsstring" where
  "newName tgt nm =
     (if tgt = js ''superSpecial''
      then replace_global placeholder (js ''super specials'') [] nm
      else replace_global placeholder (tgt @ js ''s'') [] nm)"

subsection \<open>Registration\<close>

definition duplicate_message :: "jsstring \<Rightarrow> jsstring" where
  "duplicate_message nm = js ''Duplicate matcher \"'' @ nm @ js ''\"''"

definition compile :: "jsstring \<Rightarrow> ('r, 's) matcher \<Rightarrow> jsstring \<Rightarrow> ('r, 's) matcherCopy" where
  "compile grp m tgt =
     \<lparr>name = newName tgt (name m), targets = targets m, regex = regex m,
      submatchers = submatchers m, include' = include' m, target = tgt, group = grp\<rparr>"

text \<open>
  What reading a property of a group object can give: a stored copy, a property of
  the copy that was made the prototype of the group object, or a member of
  \<open>Object.prototype\<close>.
\<close>

datatype ('r, 's) jsvalue =
    Undefined
  | RuleCopy "('r, 's) matcherCopy"
  | StringValue jsstring
  | StringArray "jsstring list"
  | RegExpValue 'r
  | SubmatcherArray "'s list"
  | NumberArray "nat list"
  | BuiltinFunction jsstring
  | ObjectPrototype

text \<open>Only \<open>undefined\<close> and the empty string are falsy among these values.\<close>

definition truthy :: "('r, 's) jsvalue \<Rightarrow> bool" where
  "truthy v = (case v of Undefined \<Rightarrow> False | StringValue s \<Rightarrow> s \<noteq> [] | _ \<Rightarrow> True)"

text \<open>The own properties of a copy; the optional ones may be missing.\<close>

definition copy_property :: "('r, 's) matcherCopy \<Rightarrow> jsstring \<Rightarrow> ('r, 's) jsvalue option" where
  "copy_property c k =
     (if k = js ''name'' then Some (StringValue (name c))
      else if k = js ''targets'' then Some (StringArray (targets c))
      else if k = js ''regex'' then Some (RegExpValue (regex c))
      else if k = js ''submatchers'' then map_option SubmatcherArray (submatchers c)
      else if k = js ''include'' then map_option NumberArray (include' c)
      else if k = js ''target'' then Some (StringValue (target c))
      else if k = js ''group'' then Some (StringValue (group c))
      else None)"

text \<open>
  \<open>obj[key]\<close> on a group object with the given own properties and prototype
  (\<open>None\<close> for \<open>Object.prototype\<close>): the own property if there is one, else the
  property of the prototype, else the member of \<open>Object.prototype\<close>, where
  \<open>__proto__\<close> is an accessor that gives the prototype of the object.
\<close>

definition get_property ::
  "('r, 's) matcherCopy jsobj \<Rightarrow> ('r, 's) matcherCopy option \<Rightarrow> jsstring \<Rightarrow> ('r, 's) jsvalue" where
  "get_property own proto k =
     (case obj_get own k of
        Some c \<Rightarrow> RuleCopy c
      | None \<Rightarrow>
          (case (case proto of None \<Rightarrow> None | Some p \<Rightarrow> copy_property p k) of
             Some v \<Rightarrow> v
           | None \<Rightarrow>
               if k = js ''__proto__'' then
                 (case proto of None \<Rightarrow> ObjectPrototype | Some p \<Rightarrow> RuleCopy p)
               else if k \<in> set object_prototype_methods then BuiltinFunction k
               else Undefined))"

text \<open>
  The body of the innermost loop, for one group, one spec and one of its targets.
  The source mutates the nested objects in place; the model rebuilds the path
  \<open>window.matchers[target][group]\<close>, which gives the same objects since an
  assignment to an existing key keeps the key's position. The two tests
  \<open>!window.matchers[target]\<close> and \<open>!window.matchers[target][group]\<close> create the
  objects that are missing. The test for a duplicate is a test of truthiness of
  \<open>window.matchers[target][group][newName]\<close>, so it also sees inherited members.
  The final assignment creates or overwrites the own property \<open>newName\<close>, except
  for the name \<open>__proto__\<close>: that assignment makes the copy the prototype of the
  group object.
\<close>

definition register ::
  "bool \<Rightarrow> jsstring \<Rightarrow> ('r, 's) matcher \<Rightarrow> jsstring \<Rightarrow>
   ('r, 's) build_state \<Rightarrow> ('r, 's) build_state" where
  "register includeOld grp m tgt st =
     (if \<not> includeOld \<and> is_old (name m) then st
      else
        let wm = window_matchers st;
            tobj = (case obj_get wm tgt of None \<Rightarrow> [] | Some t \<Rightarrow> t);
            gobj = (case obj_get tobj grp of None \<Rightarrow> [] | Some g \<Rightarrow> g);
            proto = (case obj_get tobj grp of None \<Rightarrow> None | Some g \<Rightarrow> prototypes st (tgt, grp));
            nn = newName tgt (name m);
            out = (if truthy (get_property gobj proto nn)
                   then console st @ [duplicate_message nn]
                   else console st);
            matcherCopy = compile grp m tgt
        in if nn = js ''__proto__'' then
             \<lparr>window_matchers = obj_set wm tgt (obj_set tobj grp gobj),
              console = out,
              prototypes = (prototypes st)((tgt, grp) \<mapsto> matcherCopy)\<rparr>
           else
             \<lparr>window_matchers = obj_set wm tgt (obj_set tobj grp (obj_set gobj nn matcherCopy)),
              console = out,
              prototypes = prototypes st\<rparr>)"

text \<open>
  The registrations in the order of the three nested loops: the groups of the table
  as \<open>for ... in\<close> enumerates them, the specs of a group in array order, the targets
  of a spec in array order.
\<close>

definition registrations ::
  "('r, 's) matcher list jsobj \<Rightarrow> (jsstring \<times> ('r, 's) matcher \<times> jsstring) list" where
  "registrations table =
     concat (map (\<lambda>grp.
        case obj_get table grp of
          None \<Rightarrow> []
        | Some ms \<Rightarrow> concat (map (\<lambda>m. map (\<lambda>tgt. (grp, m, tgt)) (targets m)) ms))
       (obj_keys table))"

definition register_all ::
  "bool \<Rightarrow> (jsstring \<times> ('r, 's) matcher \<times> jsstring) list \<Rightarrow>
   ('r, 's) build_state \<Rightarrow> ('r, 's) build_state" where
  "register_all includeOld regs st =
     fold (\<lambda>(grp, m, tgt). register includeOld grp m tgt) regs st"

definition init_state :: "('r, 's) build_state" where
  "init_state =
     \<lparr>window_matchers = fold (\<lambda>tgt wm. obj_set wm tgt []) allTargets [],
      console = [],
      prototypes = Map.empty\<rparr>"

subsection \<open>Alphabetical order\<close>

text \<open>
  \<open>Object.keys(obj).sort().reduce(...)\<close>: the default sort compares strings by code
  units, which is the lexicographic order of the lists. Every key read comes from
  \<open>Object.keys(obj)\<close>, so \<open>obj[key]\<close> is an own property, and no own property is
  named \<open>__proto__\<close>. The result is a new object literal: whatever the prototype of
  \<open>obj\<close> was, the prototype of the result is \<open>Object.prototype\<close>, which is why
  \<open>build\<close> forgets the prototypes when it sorts.
\<close>

definition sortObj :: "'v jsobj \<Rightarrow> 'v jsobj" where
  "sortObj obj =
     fold (\<lambda>key result.
              case obj_get obj key of
                None \<Rightarrow> result
              | Some v \<Rightarrow> obj_set result key v)
       (sort (obj_keys obj)) []"

definition sort_groups :: "'v jsobj jsobj \<Rightarrow> 'v jsobj jsobj" where
  "sort_groups tobj =
     fold (\<lambda>grp t.
              case obj_get t grp of
                None \<Rightarrow> t
              | Some g \<Rightarrow> obj_set t grp (sortObj g))
       (obj_keys tobj) tobj"

definition sort_registry :: "'v jsobj jsobj jsobj \<Rightarrow> 'v jsobj jsobj jsobj" where
  "sort_registry wm =
     fold (\<lambda>tgt w.
              case obj_get w tgt of
                None \<Rightarrow> w
              | Some t \<Rightarrow> obj_set w tgt (sort_groups t))
       (obj_keys wm) wm"

definition build ::
  "bool \<Rightarrow> bool \<Rightarrow> ('r, 's) matcher list jsobj \<Rightarrow> ('r, 's) build_state" where
  "build includeOld alphabetical table =
     (let st = register_all includeOld (registrations table) init_state
      in if alphabetical
         then st\<lparr>window_matchers := sort_registry (window_matchers st), prototypes := Map.empty\<rparr>
         else st)"

text \<open>The module as it is configured: legacy rules left out, alphabetical order on.\<close>

definition run_module :: "('r, 's) matcher list jsobj \<Rightarrow> ('r, 's) build_state" where
  "run_module table = build includeOldFilters alphabeticalOrder table"

definition lookup ::
  "('r, 's) registry \<Rightarrow> jsstring \<Rightarrow> jsstring \<Rightarrow> jsstring \<Rightarrow> ('r, 's) matcherCopy option" where
  "lookup wm tgt grp nm =
     (case obj_get wm tgt of
        None \<Rightarrow> None
      | Some t \<Rightarrow> (case obj_get t grp of None \<Rightarrow> None | Some g \<Rightarrow> obj_get g nm))"

text \<open>
  The expression \<open>window.matchers[target][group][name]\<close> on the finished registry;
  \<open>None\<close> when the target or the group is missing (the expression throws).
\<close>

definition read_entry ::
  "('r, 's) build_state \<Rightarrow> jsstring \<Rightarrow> jsstring \<Rightarrow> jsstring \<Rightarrow> ('r, 's) jsvalue option" where
  "read_entry st tgt grp nm =
     (case obj_get (window_matchers st) tgt of
        None \<Rightarrow> None
      | Some t \<Rightarrow>
          (case obj_get t grp of
             None \<Rightarrow> None
           | Some g \<Rightarrow> Some (get_property g (prototypes st (tgt, grp)) nm)))"

subsection \<open>Auxiliary notions\<close>

text \<open>A spec is skipped when legacy rules are excluded and its name marks it as legacy.\<close>

definition skipped :: "bool \<Rightarrow> ('r, 's) matcher \<Rightarrow> bool" where
  "skipped includeOld m \<longleftrightarrow> \<not> includeOld \<and> is_old (name m)"

text \<open>
  No target and no group of the table is named like a member of \<open>Object.prototype\<close>:
  the tables for which the model reads targets and groups as the code does.
\<close>

definition ordinary_keys :: "('r, 's) matcher list jsobj \<Rightarrow> bool" where
  "ordinary_keys table \<longleftrightarrow>
     list_all (\<lambda>(g, m, t). g \<notin> set object_prototype_members \<and> t \<notin> set object_prototype_members)
       (registrations table)"

text \<open>The own properties of the group object \<open>window.matchers[target][group]\<close>.\<close>

definition group_of ::
  "('r, 's) registry \<Rightarrow> jsstring \<Rightarrow> jsstring \<Rightarrow> ('r, 's) matcherCopy jsobj option" where
  "group_of wm tgt grp = (case obj_get wm tgt of None \<Rightarrow> None | Some t \<Rightarrow> obj_get t grp)"

text \<open>The keys of the registry, of every target and of every group are distinct.\<close>

definition wf_registry :: "'v jsobj jsobj jsobj \<Rightarrow> bool" where
  "wf_registry wm \<longleftrightarrow>
     distinct (map fst wm) \<and>
     (\<forall>(t, tobj) \<in> set wm. distinct (map fst tobj) \<and>
        (\<forall>(g, gobj) \<in> set tobj. distinct (map fst gobj)))"

text \<open>
  The name with every occurrence of a pattern replaced by a fixed text, scanning from
  the left: what the name templating is meant to compute.
\<close>

function replace_occurrences :: "jsstring \<Rightarrow> jsstring \<Rightarrow> jsstring \<Rightarrow> jsstring" where
  "replace_occurrences pat r s =
     (if pat \<noteq> [] \<and> take (length pat) s = pat
      then r @ replace_occurrences pat r (drop (length pat) s)
      else (case s of [] \<Rightarrow> [] | c # cs \<Rightarrow> c # replace_occurrences pat r cs))"
  by pat_completeness auto
termination
proof (relation "measure (\<lambda>(pat, r, s). length s)")
  show "wf (measure (\<lambda>(pat, r, s). length s))"
    by simp
next
  fix pat r s :: jsstring
  assume "pat \<noteq> [] \<and> take (length pat) s = pat"
  then have "s \<noteq> []" and "0 < length pat"
    by auto
  then show "((pat, r, drop (length pat) s), (pat, r, s)) \<in> measure (\<lambda>(pat, r, s). length s)"
    by (cases s) auto
next
  fix pat r s :: jsstring and c cs
  assume "s = c # cs"
  then show "((pat, r, cs), (pat, r, s)) \<in> measure (\<lambda>(pat, r, s). length s)"
    by simp
qed

declare replace_occurrences.simps [simp del]

definition contains :: "jsstring \<Rightarrow> jsstring \<Rightarrow> bool" where
  "contains pat s \<longleftrightarrow> (\<exists>i \<le> length s. take (length pat) (drop i s) = pat)"

subsection \<open>A small table\<close>

text \<open>
  Two groups. \<open>Recovery\<close> holds a legacy rule, two rules with the same name for
  the same target, and one more rule; \<open>Boosts\<close> holds a rule with a templated name.
\<close>

definition heals1 :: "(nat, unit) matcher" where
  "heals1 = \<lparr>name = js ''Heals'', targets = [js ''support''], regex = 1, submatchers = None, include' = None\<rparr>"

definition heals2 :: "(nat, unit) matcher" where
  "heals2 = \<lparr>name = js ''Heals'', targets = [js ''support''], regex = 2, submatchers = None, include' = None\<rparr>"

definition old_heals :: "(nat, unit) matcher" where
  "old_heals = \<lparr>name = js ''Old Heals %target%'', targets = [js ''captain'', js ''support''], regex = 3, submatchers = None, include' = None\<rparr>"

definition cure :: "(nat, unit) matcher" where
  "cure = \<lparr>name = js ''Cure'', targets = [js ''support''], regex = 5, submatchers = None, include' = None\<rparr>"

definition boost :: "(nat, unit) matcher" where
  "boost = \<lparr>name = js ''Boost for %target%'', targets = [js ''captain'', js ''superSpecial''], regex = 4, submatchers = None, include' = None\<rparr>"

definition example_table :: "(nat, unit) matcher list jsobj" where
  "example_table = [(js ''Recovery'', [old_heals, heals1, heals2, cure]), (js ''Boosts'', [boost])]"

text \<open>A group of two rules that are both named \<open>__proto__\<close>.\<close>

definition proto1 :: "(nat, unit) matcher" where
  "proto1 = \<lparr>name = js ''__proto__'', targets = [js ''support''], regex = 1, submatchers = None, include' = None\<rparr>"

definition proto2 :: "(nat, unit) matcher" where
  "proto2 = \<lparr>name = js ''__proto__'', targets = [js ''support''], regex = 2, submatchers = None, include' = None\<rparr>"

definition proto_table :: "(nat, unit) matcher list jsobj" where
  "proto_table = [(js ''Recovery'', [proto1, proto2])]"




text \<open>A rule that is named like a function of \<open>Object.prototype\<close>.\<close>

definition inherited :: "(nat, unit) matcher" where
  "inherited = \<lparr>name = js ''constructor'', targets = [js ''support''], regex = 1, submatchers = None, include' = None\<rparr>"


section \<open>Properties of the registry\<close>

subsection \<open>Objects\<close>

lemma obj_get_empty: "obj_get [] k = None"
  by (simp add: obj_get_def)

lemma obj_get_set: "obj_get (obj_set obj k v) k' = (if k' = k then Some v else obj_get obj k')"
  by (simp add: obj_get_def obj_set_def update_conv')

lemma obj_set_distinct: "distinct (map fst (obj_set obj k v)) = distinct (map fst obj)"
  by (auto simp add: obj_set_def update_keys)


lemma obj_set_keys_old:
  "obj_get obj k \<noteq> None \<Longrightarrow> map fst (obj_set obj k v) = map fst obj"
  by (auto simp add: obj_get_def obj_set_def update_keys map_of_eq_None_iff)

lemma obj_set_subset: "set (obj_set obj k v) \<subseteq> insert (k, v) (set obj)"
  unfolding obj_set_def by (induction obj) auto

lemma obj_get_Some_mem: "obj_get obj k = Some v \<Longrightarrow> (k, v) \<in> set obj"
  by (simp add: obj_get_def map_of_SomeD)

lemma obj_mem_get: "distinct (map fst obj) \<Longrightarrow> (k, v) \<in> set obj \<Longrightarrow> obj_get obj k = Some v"
  by (simp add: obj_get_def)

lemma set_obj_keys: "set (obj_keys obj) = fst ` set obj"
  by (auto simp add: obj_keys_def Let_def)

lemma distinct_obj_keys: "distinct (map fst obj) \<Longrightarrow> distinct (obj_keys obj)"
  by (auto simp add: obj_keys_def Let_def)


subsection \<open>One registration\<close>

text \<open>
  A registration stores its copy under the resolved name, unless that name is
  \<open>__proto__\<close>, and leaves every other entry as it was.
\<close>

lemma lookup_register:
  "lookup (window_matchers (register io g m t st)) t' g' n' =
     (if \<not> skipped io m \<and> t' = t \<and> g' = g \<and> n' = newName t (name m) \<and>
         newName t (name m) \<noteq> js ''__proto__''
      then Some (compile g m t)
      else lookup (window_matchers st) t' g' n')"
  by (auto simp add: register_def skipped_def lookup_def Let_def obj_get_set obj_get_empty
      split: option.splits)



lemma console_register_mono: "set (console st) \<subseteq> set (console (register io g m t st))"
  by (auto simp add: register_def Let_def)

lemma get_property_own: "obj_get own k = Some c \<Longrightarrow> get_property own proto k = RuleCopy c"
  by (simp add: get_property_def)

lemma console_register_duplicate:
  assumes "\<not> skipped io m" and "lookup (window_matchers st) t g (newName t (name m)) \<noteq> None"
  shows "duplicate_message (newName t (name m)) \<in> set (console (register io g m t st))"
  using assms
  by (auto simp add: register_def skipped_def lookup_def Let_def obj_get_empty get_property_own
      truthy_def split: option.splits)

lemma read_entry_lookup:
  "lookup (window_matchers st) t g n = Some c \<Longrightarrow> read_entry st t g n = Some (RuleCopy c)"
  by (auto simp add: lookup_def read_entry_def get_property_own split: option.splits)

text \<open>The text of the diagnostic, with its quotation marks.\<close>

lemma duplicate_message_example:
  "duplicate_message (js ''Heals'') =
     js ''Duplicate matcher '' @ [0x22] @ js ''Heals'' @ [0x22]"
  by (simp add: duplicate_message_def js_def)

subsection \<open>All registrations\<close>

lemma register_all_Nil: "register_all io [] st = st"
  by (simp add: register_all_def)

lemma register_all_Cons:
  "register_all io ((g, m, t) # regs) st = register_all io regs (register io g m t st)"
  by (simp add: register_all_def)

lemma register_all_append:
  "register_all io (xs @ ys) st = register_all io ys (register_all io xs st)"
  by (simp add: register_all_def)

lemma lookup_register_all_miss:
  assumes "\<forall>(g', m, t') \<in> set regs. skipped io m \<or> (t', g', newName t' (name m)) \<noteq> (t, g, n)"
  shows "lookup (window_matchers (register_all io regs st)) t g n = lookup (window_matchers st) t g n"
  using assms
proof (induction regs arbitrary: st)
  case Nil
  show ?case by (simp add: register_all_Nil)
next
  case (Cons r regs)
  obtain g' m t' where r: "r = (g', m, t')"
    by (cases r) auto
  from Cons.prems r have here: "skipped io m \<or> (t', g', newName t' (name m)) \<noteq> (t, g, n)"
    by simp
  from Cons.prems have rest:
    "\<forall>(g', m, t') \<in> set regs. skipped io m \<or> (t', g', newName t' (name m)) \<noteq> (t, g, n)"
    by simp
  have "lookup (window_matchers (register_all io regs (register io g' m t' st))) t g n =
        lookup (window_matchers (register io g' m t' st)) t g n"
    by (rule Cons.IH [OF rest])
  also have "\<dots> = lookup (window_matchers st) t g n"
    using here by (auto simp add: lookup_register)
  finally show ?case
    by (simp add: r register_all_Cons)
qed

lemma lookup_register_all_present:
  assumes "lookup (window_matchers st) t g n \<noteq> None"
  shows "lookup (window_matchers (register_all io regs st)) t g n \<noteq> None"
  using assms
proof (induction regs arbitrary: st)
  case Nil
  then show ?case by (simp add: register_all_Nil)
next
  case (Cons r regs)
  obtain g' m t' where r: "r = (g', m, t')"
    by (cases r) auto
  from Cons.prems have "lookup (window_matchers (register io g' m t' st)) t g n \<noteq> None"
    by (simp add: lookup_register)
  then show ?case
    by (simp add: r register_all_Cons Cons.IH)
qed

lemma console_register_all_mono:
  "set (console st) \<subseteq> set (console (register_all io regs st))"
proof (induction regs arbitrary: st)
  case Nil
  show ?case by (simp add: register_all_Nil)
next
  case (Cons r regs)
  obtain g' m t' where r: "r = (g', m, t')"
    by (cases r) auto
  have "set (console st) \<subseteq> set (console (register io g' m t' st))"
    by (rule console_register_mono)
  also have "\<dots> \<subseteq> set (console (register_all io regs (register io g' m t' st)))"
    by (rule Cons.IH)
  finally show ?case
    by (simp add: r register_all_Cons)
qed







subsection \<open>Sorting one object\<close>

lemma sortObj_fold_get:
  "obj_get (fold (\<lambda>key result. case obj_get obj key of None \<Rightarrow> result | Some v \<Rightarrow> obj_set result key v) ks acc) k =
     (if k \<in> set ks \<and> obj_get obj k \<noteq> None then obj_get obj k else obj_get acc k)"
  by (induction ks arbitrary: acc) (auto simp add: obj_get_set split: option.splits)

lemma obj_get_None_iff: "obj_get obj k = None \<longleftrightarrow> k \<notin> fst ` set obj"
  by (simp add: obj_get_def map_of_eq_None_iff)

lemma obj_get_notin: "k \<notin> fst ` set obj \<Longrightarrow> obj_get obj k = None"
  by (simp add: obj_get_None_iff)

lemma obj_get_sortObj: "obj_get (sortObj obj) k = obj_get obj k"
proof (cases "k \<in> fst ` set obj")
  case True
  then have "obj_get obj k \<noteq> None"
    by (simp add: obj_get_None_iff)
  with True show ?thesis
    by (simp add: sortObj_def sortObj_fold_get set_obj_keys)
next
  case False
  then show ?thesis
    by (simp add: sortObj_def sortObj_fold_get set_obj_keys obj_get_empty obj_get_notin)
qed






lemma sortObj_empty: "sortObj [] = []"
  by (simp add: sortObj_def obj_keys_def)

subsection \<open>Sorting every group of every target\<close>

lemma fold_update_get:
  assumes "distinct ks"
  shows "obj_get (fold (\<lambda>k t. case obj_get t k of None \<Rightarrow> t | Some v \<Rightarrow> obj_set t k (f v)) ks obj) k' =
         (if k' \<in> set ks then map_option f (obj_get obj k') else obj_get obj k')"
  using assms
  by (induction ks arbitrary: obj) (auto simp add: obj_get_set split: option.splits)

lemma obj_get_sort_groups:
  assumes "distinct (map fst tobj)"
  shows "obj_get (sort_groups tobj) g = map_option sortObj (obj_get tobj g)"
  unfolding sort_groups_def
  using assms
  by (auto simp add: fold_update_get distinct_obj_keys set_obj_keys obj_get_notin)

lemma obj_get_sort_registry:
  assumes "distinct (map fst wm)"
  shows "obj_get (sort_registry wm) t = map_option sort_groups (obj_get wm t)"
  unfolding sort_registry_def
  using assms
  by (auto simp add: fold_update_get distinct_obj_keys set_obj_keys obj_get_notin)


subsection \<open>Keys stay distinct\<close>

lemma wf_registry_get:
  assumes "wf_registry wm" and "obj_get wm t = Some tobj"
  shows "distinct (map fst tobj)"
    and "obj_get tobj g = Some gobj \<Longrightarrow> distinct (map fst gobj)"
  using assms by (auto simp add: wf_registry_def dest!: obj_get_Some_mem)

lemma wf_registry_set:
  assumes wm: "wf_registry wm" and t: "distinct (map fst tobj)"
    and g: "\<forall>(g, gobj) \<in> set tobj. distinct (map fst gobj)"
  shows "wf_registry (obj_set wm t tobj)"
  unfolding wf_registry_def
proof (intro conjI ballI)
  show "distinct (map fst (obj_set wm t tobj))"
    using wm by (simp add: obj_set_distinct wf_registry_def)
next
  fix x assume "x \<in> set (obj_set wm t tobj)"
  then have "x = (t, tobj) \<or> x \<in> set wm"
    using obj_set_subset [of wm t tobj] by auto
  then show "case x of (t, tobj) \<Rightarrow> distinct (map fst tobj) \<and>
        (\<forall>(g, gobj) \<in> set tobj. distinct (map fst gobj))"
    using wm t g by (auto simp add: wf_registry_def)
qed

lemma wf_registry_register:
  assumes "wf_registry (window_matchers st)"
  shows "wf_registry (window_matchers (register io g m t st))"
proof (cases "\<not> io \<and> is_old (name m)")
  case True
  then show ?thesis using assms by (simp add: register_def)
next
  case False
  define wm where "wm = window_matchers st"
  define tobj where "tobj = (case obj_get wm t of None \<Rightarrow> [] | Some x \<Rightarrow> x)"
  define gobj where "gobj = (case obj_get tobj g of None \<Rightarrow> [] | Some x \<Rightarrow> x)"
  define gobj' where "gobj' =
    (if newName t (name m) = js ''__proto__'' then gobj
     else obj_set gobj (newName t (name m)) (compile g m t))"
  have wm: "wf_registry wm"
    using assms by (simp add: wm_def)
  have td: "distinct (map fst tobj)" and tg: "\<forall>(g, gobj) \<in> set tobj. distinct (map fst gobj)"
  proof -
    show "distinct (map fst tobj)"
    proof (cases "obj_get wm t")
      case None
      then show ?thesis by (simp add: tobj_def)
    next
      case (Some x)
      then have "(t, x) \<in> set wm"
        by (rule obj_get_Some_mem)
      with wm Some show ?thesis
        by (auto simp add: tobj_def wf_registry_def)
    qed
    show "\<forall>(g, gobj) \<in> set tobj. distinct (map fst gobj)"
    proof (cases "obj_get wm t")
      case None
      then show ?thesis by (simp add: tobj_def)
    next
      case (Some x)
      then have "(t, x) \<in> set wm"
        by (rule obj_get_Some_mem)
      with wm Some show ?thesis
        by (auto simp add: tobj_def wf_registry_def)
    qed
  qed
  have gd: "distinct (map fst gobj)"
  proof (cases "obj_get tobj g")
    case None
    then show ?thesis by (simp add: gobj_def)
  next
    case (Some x)
    then have "(g, x) \<in> set tobj"
      by (rule obj_get_Some_mem)
    with tg Some show ?thesis
      by (auto simp add: gobj_def)
  qed
  have gd': "distinct (map fst gobj')"
    using gd by (simp add: gobj'_def obj_set_distinct)
  let ?tobj' = "obj_set tobj g gobj'"
  have "distinct (map fst ?tobj')"
    using td by (simp add: obj_set_distinct)
  moreover have "\<forall>(g, gobj) \<in> set ?tobj'. distinct (map fst gobj)"
  proof (intro ballI)
    fix x assume "x \<in> set ?tobj'"
    then have "x = (g, gobj') \<or> x \<in> set tobj"
      using obj_set_subset [of tobj g gobj'] by auto
    then show "case x of (g, gobj) \<Rightarrow> distinct (map fst gobj)"
      using tg gd' by auto
  qed
  ultimately have "wf_registry (obj_set wm t ?tobj')"
    by (rule wf_registry_set [OF wm])
  moreover have "window_matchers (register io g m t st) = obj_set wm t ?tobj'"
    using False by (auto simp add: register_def Let_def wm_def tobj_def gobj_def gobj'_def)
  ultimately show ?thesis
    by simp
qed

lemma wf_registry_register_all:
  assumes "wf_registry (window_matchers st)"
  shows "wf_registry (window_matchers (register_all io regs st))"
  using assms
proof (induction regs arbitrary: st)
  case Nil
  then show ?case by (simp add: register_all_Nil)
next
  case (Cons r regs)
  obtain g' m t' where r: "r = (g', m, t')"
    by (cases r) auto
  show ?case
    by (simp add: r register_all_Cons Cons.IH wf_registry_register Cons.prems)
qed

lemma wf_registry_init_fold:
  "wf_registry wm0 \<Longrightarrow> wf_registry (fold (\<lambda>tgt wm. obj_set wm tgt []) ts wm0)"
  by (induction ts arbitrary: wm0) (auto simp add: wf_registry_set)

lemma wf_registry_empty: "wf_registry []"
  by (simp add: wf_registry_def)

lemma wf_registry_init: "wf_registry (window_matchers init_state)"
  by (simp add: init_state_def wf_registry_init_fold wf_registry_empty)

lemma lookup_sort_registry:
  assumes "wf_registry wm"
  shows "lookup (sort_registry wm) t g n = lookup wm t g n"
proof (cases "obj_get wm t")
  case None
  then show ?thesis
    using assms by (simp add: lookup_def obj_get_sort_registry wf_registry_def)
next
  case (Some tobj)
  have d: "distinct (map fst tobj)"
    by (rule wf_registry_get(1) [OF assms Some])
  show ?thesis
    using assms Some d
    by (simp add: lookup_def obj_get_sort_registry obj_get_sort_groups wf_registry_def
        obj_get_sortObj split: option.splits)
qed

subsection \<open>The finished registry\<close>

lemma skipped_iff: "skipped io m \<longleftrightarrow> \<not> (io \<or> \<not> is_old (name m))"
  by (simp add: skipped_def)

lemma build_window_matchers:
  "window_matchers (build io alph table) =
     (if alph then sort_registry (window_matchers (register_all io (registrations table) init_state))
      else window_matchers (register_all io (registrations table) init_state))"
  by (simp add: build_def Let_def)

lemma build_console:
  "console (build io alph table) = console (register_all io (registrations table) init_state)"
  by (simp add: build_def Let_def)

lemma run_module_build: "run_module table = build False True table"
  by (simp add: run_module_def includeOldFilters_def alphabeticalOrder_def)

lemma lookup_build:
  "lookup (window_matchers (build io alph table)) t g n =
   lookup (window_matchers (register_all io (registrations table) init_state)) t g n"
  by (simp add: build_window_matchers lookup_sort_registry wf_registry_register_all wf_registry_init)

subsection \<open>The small table, evaluated\<close>

lemmas example_defs = old_heals_def heals1_def heals2_def cure_def boost_def

lemma example_registrations: "registrations example_table =
  [(js ''Recovery'', old_heals, js ''captain''), (js ''Recovery'', old_heals, js ''support''),
   (js ''Recovery'', heals1, js ''support''), (js ''Recovery'', heals2, js ''support''),
   (js ''Recovery'', cure, js ''support''),
   (js ''Boosts'', boost, js ''captain''), (js ''Boosts'', boost, js ''superSpecial'')]"
  by (simp add: registrations_def example_table_def obj_keys_def obj_get_def is_array_index_def
      js_def is_digit_def example_defs)

lemma example_names:
  "newName (js ''support'') (js ''Heals'') = js ''Heals''"
  "newName (js ''support'') (js ''Cure'') = js ''Cure''"
  "newName (js ''captain'') (js ''Boost for %target%'') = js ''Boost for captains''"
  "newName (js ''superSpecial'') (js ''Boost for %target%'') = js ''Boost for super specials''"
  by (simp_all add: newName_def js_def placeholder_def replace_global.simps)

lemma example_old:
  "is_old (name old_heals)" "\<not> is_old (name heals1)" "\<not> is_old (name heals2)"
  "\<not> is_old (name cure)" "\<not> is_old (name boost)"
  by (simp_all add: is_old_def example_defs js_def)

lemmas registry_eval = register_all_def init_state_def allTargets_def register_def Let_def
  is_old_def obj_get_def obj_set_def js_def newName_def placeholder_def replace_global.simps
  build_def sort_registry_def sort_groups_def sortObj_def obj_keys_def is_array_index_def is_digit_def
  compile_def lookup_def duplicate_message_def get_property_def truthy_def copy_property_def
  object_prototype_methods_def read_entry_def group_of_def digits_value_def



lemma example_console:
  "console (build False True example_table) = [js ''Duplicate matcher \"Heals\"'']"
  unfolding build_console example_registrations
  by (simp add: registry_eval example_defs)

text \<open>
  The test for a duplicate sees inherited members: the first registration of a rule
  named \<open>constructor\<close> prints the message, and the rule is stored.
\<close>

lemma inherited_name_example:
  "console (register False (js ''Recovery'') inherited (js ''support'') init_state) =
     [duplicate_message (js ''constructor'')]"
  "lookup (window_matchers (register False (js ''Recovery'') inherited (js ''support'') init_state))
     (js ''support'') (js ''Recovery'') (js ''constructor'') =
     Some (compile (js ''Recovery'') inherited (js ''support''))"
  by (simp_all add: registry_eval inherited_def)

lemma example_ordinary: "ordinary_keys example_table"
  unfolding ordinary_keys_def example_registrations
  by (simp add: object_prototype_members_def object_prototype_methods_def js_def)

subsection \<open>Groups of the sorted registry\<close>



text \<open>
  Claim C1 does not hold as it is stated. Two rules named \<open>__proto__\<close> for the same
  target and group resolve to the same triple, but the assignment
  \<open>window.matchers[target][group]["__proto__"] = matcherCopy\<close> creates no entry: it
  replaces the prototype of the group object, and sorting then builds a new object
  from the own properties. In the finished registry the expression
  \<open>window.matchers[target][group]["__proto__"]\<close> is \<open>Object.prototype\<close>, not the
  copy of the second rule.
\<close>

theorem proto_name_counterexample:
  "registrations proto_table =
     [(js ''Recovery'', proto1, js ''support''), (js ''Recovery'', proto2, js ''support'')] \<and>
   newName (js ''support'') (name proto1) = newName (js ''support'') (name proto2) \<and>
   read_entry (build False True proto_table) (js ''support'') (js ''Recovery'')
     (newName (js ''support'') (name proto2)) = Some ObjectPrototype \<and>
   read_entry (build False True proto_table) (js ''support'') (js ''Recovery'')
     (newName (js ''support'') (name proto2)) \<noteq>
     Some (RuleCopy (compile (js ''Recovery'') proto2 (js ''support'')))"
  by (simp add: registry_eval registrations_def proto_table_def proto1_def proto2_def)

text \<open>
  Claim C1, amended. When two registrations resolve to the same target, group and
  name, the name is not \<open>__proto__\<close>, and no later registration resolves to that
  triple again, the expression \<open>window.matchers[target][group][name]\<close> on the
  finished registry is the copy of the second spec, the message
  \<open>Duplicate matcher "name"\<close> was printed, and every registration after the
  collision was still carried out. The table has no target or group that is named
  like a member of \<open>Object.prototype\<close>.
\<close>

theorem collision_last_registration_wins:
  assumes ordinary: "ordinary_keys table"
    and regs: "registrations table = xs @ (g, m1, t) # ys @ (g, m2, t) # zs"
    and m1: "io \<or> \<not> is_old (name m1)"
    and m2: "io \<or> \<not> is_old (name m2)"
    and same: "newName t (name m1) = newName t (name m2)"
    and name: "newName t (name m2) \<noteq> js ''__proto__''"
    and last: "\<forall>(g', m, t') \<in> set zs. (io \<or> \<not> is_old (name m)) \<longrightarrow>
        (t', g', newName t' (name m)) \<noteq> (t, g, newName t (name m2))"
  shows "read_entry (build io alph table) t g (newName t (name m2)) =
           Some (RuleCopy (compile g m2 t)) \<and>
         duplicate_message (newName t (name m2)) \<in> set (console (build io alph table)) \<and>
         (\<forall>(g', m, t') \<in> set zs.
            (io \<or> \<not> is_old (name m)) \<and> newName t' (name m) \<noteq> js ''__proto__'' \<longrightarrow>
            lookup (window_matchers (build io alph table)) t' g' (newName t' (name m)) \<noteq> None)"
proof -
  define n where "n = newName t (name m2)"
  define s1 where "s1 = register_all io (xs @ (g, m1, t) # ys) init_state"
  define s2 where "s2 = register io g m2 t s1"
  define s3 where "s3 = register_all io zs s2"
  have split: "xs @ (g, m1, t) # ys @ (g, m2, t) # zs = (xs @ (g, m1, t) # ys) @ (g, m2, t) # zs"
    by simp
  have final: "register_all io (registrations table) init_state = s3"
    unfolding regs split register_all_append [of io "xs @ (g, m1, t) # ys"]
    by (simp add: s3_def s2_def s1_def register_all_Cons)
  have k1: "\<not> skipped io m1" and k2: "\<not> skipped io m2"
    using m1 m2 by (simp_all add: skipped_iff)
  have "lookup (window_matchers (register io g m1 t (register_all io xs init_state))) t g n = Some (compile g m1 t)"
    using k1 same name by (simp add: lookup_register n_def)
  then have "lookup (window_matchers (register_all io ys (register io g m1 t (register_all io xs init_state)))) t g n \<noteq> None"
    by (intro lookup_register_all_present) simp
  then have before: "lookup (window_matchers s1) t g n \<noteq> None"
    by (simp add: s1_def register_all_append register_all_Cons)
  have at2: "lookup (window_matchers s2) t g n = Some (compile g m2 t)"
    using k2 name by (simp add: s2_def lookup_register n_def)
  have miss: "\<forall>(g', m, t') \<in> set zs. skipped io m \<or> (t', g', newName t' (name m)) \<noteq> (t, g, n)"
    using last by (auto simp add: skipped_iff n_def)
  have "lookup (window_matchers s3) t g n = lookup (window_matchers s2) t g n"
    unfolding s3_def by (rule lookup_register_all_miss [OF miss])
  with at2 have "lookup (window_matchers (build io alph table)) t g n = Some (compile g m2 t)"
    by (simp add: lookup_build final)
  then have entry: "read_entry (build io alph table) t g n = Some (RuleCopy (compile g m2 t))"
    by (rule read_entry_lookup)
  have "duplicate_message n \<in> set (console s2)"
    unfolding s2_def n_def
    using k2 before by (intro console_register_duplicate) (simp_all add: n_def)
  moreover have "set (console s2) \<subseteq> set (console s3)"
    unfolding s3_def by (rule console_register_all_mono)
  ultimately have diag: "duplicate_message n \<in> set (console (build io alph table))"
    by (auto simp add: build_console final)
  have later1: "lookup (window_matchers (build io alph table)) t' g' (newName t' (name m)) \<noteq> None"
    if mem: "(g', m, t') \<in> set zs" and live: "io \<or> \<not> is_old (name m)"
      and nm: "newName t' (name m) \<noteq> js ''__proto__''" for g' m t'
  proof -
    from mem obtain us vs where zs: "zs = us @ (g', m, t') # vs"
      by (auto simp add: in_set_conv_decomp)
    have "lookup (window_matchers (register io g' m t' (register_all io us s2))) t' g' (newName t' (name m)) \<noteq> None"
      using live nm by (simp add: lookup_register skipped_iff)
    then have "lookup (window_matchers (register_all io vs (register io g' m t' (register_all io us s2)))) t' g' (newName t' (name m)) \<noteq> None"
      by (rule lookup_register_all_present)
    then have "lookup (window_matchers s3) t' g' (newName t' (name m)) \<noteq> None"
      by (simp add: s3_def zs register_all_append register_all_Cons)
    then show ?thesis
      by (simp add: lookup_build final)
  qed
  have later: "\<forall>(g', m, t') \<in> set zs.
      (io \<or> \<not> is_old (name m)) \<and> newName t' (name m) \<noteq> js ''__proto__'' \<longrightarrow>
      lookup (window_matchers (build io alph table)) t' g' (newName t' (name m)) \<noteq> None"
    using later1 by blast
  from entry diag later show ?thesis
    by (simp add: n_def)
qed

theorem collision_last_registration_wins_witness:
  "read_entry (build False True example_table) (js ''support'') (js ''Recovery'') (js ''Heals'') =
     Some (RuleCopy (compile (js ''Recovery'') heals2 (js ''support''))) \<and>
   duplicate_message (js ''Heals'') \<in> set (console (build False True example_table)) \<and>
   lookup (window_matchers (build False True example_table))
      (js ''support'') (js ''Recovery'') (js ''Cure'') \<noteq> None"
proof -
  have regs: "registrations example_table =
      [(js ''Recovery'', old_heals, js ''captain''), (js ''Recovery'', old_heals, js ''support'')] @
      (js ''Recovery'', heals1, js ''support'') # [] @
      (js ''Recovery'', heals2, js ''support'') #
      [(js ''Recovery'', cure, js ''support''), (js ''Boosts'', boost, js ''captain''),
       (js ''Boosts'', boost, js ''superSpecial'')]"
    by (simp add: example_registrations)
  have live1: "False \<or> \<not> is_old (name heals1)" and live2: "False \<or> \<not> is_old (name heals2)"
    by (simp_all add: example_old)
  have same: "newName (js ''support'') (name heals1) = newName (js ''support'') (name heals2)"
    by (simp add: heals1_def heals2_def)
  have n2: "newName (js ''support'') (name heals2) = js ''Heals''"
    and nc: "newName (js ''support'') (name cure) = js ''Cure''"
    by (simp_all add: heals2_def cure_def example_names)
  have name: "newName (js ''support'') (name heals2) \<noteq> js ''__proto__''"
    by (simp add: n2) (simp add: js_def)
  have cure: "js ''Cure'' \<noteq> js ''__proto__''"
    by (simp add: js_def)
  have last: "\<forall>(g', m, t') \<in> set [(js ''Recovery'', cure, js ''support''),
        (js ''Boosts'', boost, js ''captain''), (js ''Boosts'', boost, js ''superSpecial'')].
      (False \<or> \<not> is_old (name m)) \<longrightarrow>
      (t', g', newName t' (name m)) \<noteq>
      (js ''support'', js ''Recovery'', newName (js ''support'') (name heals2))"
    by (simp add: n2 nc) (simp add: js_def)
  from collision_last_registration_wins [OF example_ordinary regs live1 live2 same name last, of True]
  show ?thesis
    by (simp add: n2 nc example_old cure)
qed








subsection \<open>Name templating\<close>

lemma get_substitution_plain:
  "0x24 \<notin> set r \<Longrightarrow> get_substitution m b a r = r"
  by (induction m b a r rule: get_substitution.induct) auto

lemma replace_global_plain:
  "0x24 \<notin> set r \<Longrightarrow> replace_global pat r b s = replace_occurrences pat r s"
proof (induction pat r b s rule: replace_global.induct)
  case (1 pat repl before s)
  show ?case
  proof (cases "pat \<noteq> [] \<and> take (length pat) s = pat")
    case True
    with 1 show ?thesis
      by (subst replace_global.simps, subst replace_occurrences.simps)
        (simp add: get_substitution_plain)
  next
    case False
    show ?thesis
    proof (cases s)
      case Nil
      with False show ?thesis
        by (subst replace_global.simps, subst replace_occurrences.simps) auto
    next
      case (Cons c cs)
      with False 1 show ?thesis
        by (subst replace_global.simps, subst replace_occurrences.simps) auto
    qed
  qed
qed

lemma contains_Cons:
  assumes "contains pat (c # cs)" and "take (length pat) (c # cs) \<noteq> pat"
  shows "contains pat cs"
proof -
  from assms(1) obtain i where i: "i \<le> length (c # cs)" "take (length pat) (drop i (c # cs)) = pat"
    by (auto simp add: contains_def)
  with assms(2) have "i \<noteq> 0"
    by (cases i) auto
  then obtain j where "i = Suc j"
    by (cases i) auto
  with i show ?thesis
    by (auto simp add: contains_def)
qed

lemma replace_occurrences_differ:
  assumes "a \<noteq> b" and "pat \<noteq> []" and "contains pat s"
  shows "replace_occurrences pat (p @ a # q1) s \<noteq> replace_occurrences pat (p @ b # q2) s"
  using assms(3)
proof (induction s)
  case Nil
  with assms(2) show ?case
    by (simp add: contains_def)
next
  case (Cons c cs)
  show ?case
  proof (cases "take (length pat) (c # cs) = pat")
    case True
    have "replace_occurrences pat (p @ a # q1) (c # cs) ! length p = a"
      using True assms(2) by (subst replace_occurrences.simps) (simp add: nth_append)
    moreover have "replace_occurrences pat (p @ b # q2) (c # cs) ! length p = b"
      using True assms(2) by (subst replace_occurrences.simps) (simp add: nth_append)
    ultimately show ?thesis
      using assms(1) by metis
  next
    case False
    with Cons.prems have "contains pat cs"
      by (rule contains_Cons)
    then have "replace_occurrences pat (p @ a # q1) cs \<noteq> replace_occurrences pat (p @ b # q2) cs"
      by (rule Cons.IH)
    with False show ?thesis
      by (subst replace_occurrences.simps, subst (2) replace_occurrences.simps) simp
  qed
qed

text \<open>
  Claim C3. The stored name is the spec's name with every occurrence of
  \<open>%target%\<close> replaced by the target followed by \<open>s\<close>, and by
  \<open>super specials\<close> for the target \<open>superSpecial\<close>; then it differs from the
  name with \<open>superSpecials\<close> substituted as soon as the placeholder occurs. The
  target must not contain a dollar sign, which \<open>replace\<close> would expand; no target of
  the table does.
\<close>

theorem stored_name_substitutes_target_plural:
  assumes "0x24 \<notin> set t"
  shows "name (compile g m t) =
           replace_occurrences placeholder
             (if t = js ''superSpecial'' then js ''super specials'' else t @ js ''s'') (name m) \<and>
         (contains placeholder (name m) \<longrightarrow>
            name (compile g m (js ''superSpecial'')) \<noteq>
            replace_occurrences placeholder (js ''superSpecials'') (name m))"
proof -
  have plain: "0x24 \<notin> set (js ''super specials'')"
    by (simp add: js_def)
  have first: "name (compile g m t) =
      replace_occurrences placeholder
        (if t = js ''superSpecial'' then js ''super specials'' else t @ js ''s'') (name m)"
    using assms plain by (simp add: compile_def newName_def replace_global_plain js_def)
  have second: "name (compile g m (js ''superSpecial'')) \<noteq>
      replace_occurrences placeholder (js ''superSpecials'') (name m)"
    if c: "contains placeholder (name m)"
  proof -
    have ne: "placeholder \<noteq> []"
      by (simp add: placeholder_def js_def)
    have "replace_occurrences placeholder (js ''super'' @ 0x20 # js ''specials'') (name m) \<noteq>
          replace_occurrences placeholder (js ''super'' @ 0x53 # js ''pecials'') (name m)"
      by (rule replace_occurrences_differ [OF _ ne c]) simp
    moreover have "js ''super'' @ 0x20 # js ''specials'' = js ''super specials''"
      and "js ''super'' @ 0x53 # js ''pecials'' = js ''superSpecials''"
      by (simp_all add: js_def)
    ultimately show ?thesis
      using plain by (simp add: compile_def newName_def replace_global_plain)
  qed
  from first second show ?thesis
    by simp
qed

theorem stored_name_substitutes_target_plural_witness:
  "name (compile (js ''Boosts'') boost (js ''captain'')) =
     replace_occurrences placeholder (js ''captains'') (js ''Boost for %target%'') \<and>
   name (compile (js ''Boosts'') boost (js ''superSpecial'')) \<noteq>
     replace_occurrences placeholder (js ''superSpecials'') (js ''Boost for %target%'')"
proof -
  have plain: "0x24 \<notin> set (js ''captain'')"
    by (simp add: js_def)
  have "take (length placeholder) (drop 10 (name boost)) = placeholder"
    by (simp add: boost_def placeholder_def js_def)
  moreover have "10 \<le> length (name boost)"
    by (simp add: boost_def js_def)
  ultimately have c: "contains placeholder (name boost)"
    unfolding contains_def by blast
  have nm: "name boost = js ''Boost for %target%''"
    by (simp add: boost_def)
  have "js ''captain'' \<noteq> js ''superSpecial''" and "js ''captain'' @ js ''s'' = js ''captains''"
    by (simp_all add: js_def)
  with stored_name_substitutes_target_plural [OF plain, of "js ''Boosts''" boost] c nm
  show ?thesis
    by simp
qed

subsection \<open>The test for legacy names\<close>

text \<open>
  \<open>is_old\<close> states directly what \<open>/^old/i.test(name)\<close> computes; it agrees with
  the pattern as the model of regular expressions reads and runs it, whatever the
  case table.
\<close>

lemma old_pattern_parses:
  "new_RegExp (js ''^old'') (js ''i'') =
     Inr \<lparr>pattern = js ''^old'', ignoreCase = True,
          prog = Seq Bol (Seq (Chr 0x6F) (Seq (Chr 0x6C) (Seq (Chr 0x64) Empty)))\<rparr>"
  by code_simp

lemma canonicalize_old:
  "canonicalize True up c = canonicalize True up 0x6F \<longleftrightarrow> c = 0x6F \<or> c = 0x4F"
  "canonicalize True up c = canonicalize True up 0x6C \<longleftrightarrow> c = 0x6C \<or> c = 0x4C"
  "canonicalize True up c = canonicalize True up 0x64 \<longleftrightarrow> c = 0x64 \<or> c = 0x44"
  by (simp add: canonicalize_def Let_def, unat_arith)+

lemma is_old_regexp:
  "regexp_test up (projr (new_RegExp (js ''^old'') (js ''i''))) nm = is_old nm"
proof -
  have "regexp_test up (projr (new_RegExp (js ''^old'') (js ''i''))) nm \<longleftrightarrow>
      ends True up nm (Seq Bol (Seq (Chr 0x6F) (Seq (Chr 0x6C) (Seq (Chr 0x64) Empty)))) 0 \<noteq> []"
    unfolding old_pattern_parses regexp_test_def list_ex_iff
    by (auto simp add: gr0_conv_Suc)
  also have "\<dots> \<longleftrightarrow> is_old nm"
  proof (cases nm)
    case Nil
    then show ?thesis by (simp add: is_old_def)
  next
    case a: (Cons a r1)
    show ?thesis
    proof (cases r1)
      case Nil
      with a show ?thesis by (simp add: is_old_def)
    next
      case b: (Cons b r2)
      show ?thesis
      proof (cases r2)
        case Nil
        with a b show ?thesis by (simp add: is_old_def)
      next
        case (Cons c r3)
        with a b show ?thesis
          by (simp add: is_old_def canonicalize_old) blast
      qed
    qed
  qed
  finally show ?thesis .
qed


section \<open>Properties of the generators\<close>

subsection \<open>Results without errors\<close>

lemma collect_Inr:
  "\<forall>x \<in> set xs. \<not> isl x \<Longrightarrow> collect xs = Inr (map projr xs)"
  by (induction xs) (auto split: sum.splits)

lemma option_submatcher_Inr:
  assumes "\<not> isl (new_RegExp pat (js ''i''))"
  shows "option_submatcher desc pat css grps =
     Inr \<lparr>type = OptionSub, description = desc, regex = Some (projr (new_RegExp pat (js ''i''))),
          radioGroup = None, cssClasses = css, groups = grps\<rparr>"
  using assms by (auto simp add: option_submatcher_def split: sum.splits)

subsection \<open>Patterns of ASCII characters\<close>

lemma canonicalize_low: "c < 0x80 \<Longrightarrow> canonicalize ic up c = canonicalize ic up' c"
  by (simp add: canonicalize_def)

lemma canonicalize_low_range: "c < 0x80 \<Longrightarrow> canonicalize ic up c < 0x80"
  by (simp add: canonicalize_def, unat_arith)

lemma canonicalize_high: "\<not> c < 0x80 \<Longrightarrow> \<not> canonicalize ic up c < 0x80"
  by (simp add: canonicalize_def Let_def)

lemma canonicalize_ascii:
  assumes "c < 0x80"
  shows "canonicalize ic up d = canonicalize ic up c \<longleftrightarrow>
         canonicalize ic up' d = canonicalize ic up' c"
proof (cases "d < 0x80")
  case True
  with assms show ?thesis
    by (simp add: canonicalize_low [of d ic up up'] canonicalize_low [of c ic up up'])
next
  case False
  from assms have "canonicalize ic up c < 0x80" and "canonicalize ic up' c < 0x80"
    by (rule canonicalize_low_range)+
  moreover from False have "\<not> canonicalize ic up d < 0x80" and "\<not> canonicalize ic up' d < 0x80"
    by (rule canonicalize_high)+
  ultimately show ?thesis
    by auto
qed

lemma ends_ascii:
  "ascii_pattern r \<Longrightarrow> ends ic up s r i = ends ic up' s r i"
proof (induction r arbitrary: i)
  case (Chr c)
  then show ?case
    by (simp add: canonicalize_ascii [where up = up and up' = up'])
next
  case (Seq a b)
  then have "ends ic up s b = ends ic up' s b" and "ends ic up s a i = ends ic up' s a i"
    by auto
  then show ?case
    by simp
next
  case (Rep mn mx a)
  then have "ends ic up s a = ends ic up' s a"
    by (intro ext) simp
  then show ?case
    by simp
qed simp_all

lemma regexp_test_ascii:
  "ascii_pattern (prog r) \<Longrightarrow> regexp_test up r s = regexp_test up' r s"
  by (simp add: regexp_test_def ends_ascii [where up = up and up' = up'])

subsection \<open>Board positions\<close>

lemma cell_patterns_parse:
  "\<not> isl (new_RegExp (js ''left column|top(?! right)|Friend Captain'') (js ''i''))"
  "\<not> isl (new_RegExp (js ''right column|top(?! left)|(?:^|(?!end ).{4})Captain'') (js ''i''))"
  "\<not> isl (new_RegExp (js ''left column|middle(?! right)'') (js ''i''))"
  "\<not> isl (new_RegExp (js ''right column|middle(?! left)'') (js ''i''))"
  "\<not> isl (new_RegExp (js ''left column|bottom(?! right)'') (js ''i''))"
  "\<not> isl (new_RegExp (js ''right column|bottom(?! left)'') (js ''i''))"
  "\<not> isl (new_RegExp (js ''adjacent'') (js ''i''))"
  "\<not> isl (new_RegExp (js ''selected'') (js ''i''))"
  "\<not> isl (new_RegExp (js ''this|own|supported'') (js ''i''))"
  by code_simp+

lemma captain_patterns_ascii:
  "ascii_pattern (prog (projr
     (new_RegExp (js ''right column|top(?! left)|(?:^|(?!end ).{4})Captain'') (js ''i''))))"
  "ascii_pattern (prog (projr
     (new_RegExp (js ''left column|top(?! right)|Friend Captain'') (js ''i''))))"
  by code_simp+

lemma captain_matches_id:
  "regexp_test id (projr (new_RegExp (js ''right column|top(?! left)|(?:^|(?!end ).{4})Captain'') (js ''i'')))
     (js ''the Captain'')"
  "\<not> regexp_test id (projr (new_RegExp (js ''right column|top(?! left)|(?:^|(?!end ).{4})Captain'') (js ''i'')))
     (js ''Friend Captain'')"
  "regexp_test id (projr (new_RegExp (js ''left column|top(?! right)|Friend Captain'') (js ''i'')))
     (js ''Friend Captain'')"
  by code_simp+

lemma captain_matches:
  "regexp_test up (projr (new_RegExp (js ''right column|top(?! left)|(?:^|(?!end ).{4})Captain'') (js ''i'')))
     (js ''the Captain'')"
  "\<not> regexp_test up (projr (new_RegExp (js ''right column|top(?! left)|(?:^|(?!end ).{4})Captain'') (js ''i'')))
     (js ''Friend Captain'')"
  "regexp_test up (projr (new_RegExp (js ''left column|top(?! right)|Friend Captain'') (js ''i'')))
     (js ''Friend Captain'')"
  using captain_matches_id
  by (simp_all add: regexp_test_ascii [OF captain_patterns_ascii(1), where up = up and up' = id]
      regexp_test_ascii [OF captain_patterns_ascii(2), where up = up and up' = id])

lemma default_arg_simps: "default_arg d None = d" "default_arg d (Some v) = v"
  by (simp_all add: default_arg_def)

lemma universal_suffix_off: "universal_suffix False ur = []"
  by (simp add: universal_suffix_def)

text \<open>
  Claim C10. In the combined mode and without the universal alias, the first two
  submatchers are the cells \<open>Friend Captain\<close> and \<open>Captain\<close>. The pattern of the
  \<open>Captain\<close> cell matches \<open>the Captain\<close> and does not match \<open>Friend Captain\<close>,
  which the pattern of the \<open>Friend Captain\<close> cell matches. The patterns are ASCII,
  so this holds whatever the case table.
\<close>

theorem captain_cell_excludes_friend_captain:
  "\<exists>friend captain others.
     fst (createPositionsSubmatchers grps (Some False) ur excluded (Some False) st) =
       Inr (friend # captain # others) \<and>
     description friend = Some [0xCE5C, 0xAD6C, 0x0020, 0xC120, 0xC7A5] \<and>
     description captain = Some [0xC120, 0xC7A5] \<and>
     (\<exists>r. submatcher.regex captain = Some r \<and>
          pattern r = js ''right column|top(?! left)|(?:^|(?!end ).{4})Captain'' \<and>
          regexp_test up r (js ''the Captain'') \<and> \<not> regexp_test up r (js ''Friend Captain'')) \<and>
     (\<exists>r. submatcher.regex friend = Some r \<and>
          pattern r = js ''left column|top(?! right)|Friend Captain'' \<and>
          regexp_test up r (js ''Friend Captain''))"
proof -
  let ?friend = "option_submatcher (Some [0xCE5C, 0xAD6C, 0x0020, 0xC120, 0xC7A5])
      (js ''left column|top(?! right)|Friend Captain'') (Some [js ''min-width-6'']) grps"
  let ?captain = "option_submatcher (Some [0xC120, 0xC7A5])
      (js ''right column|top(?! left)|(?:^|(?!end ).{4})Captain'') (Some [js ''min-width-6'']) grps"
  define rest where "rest =
     [option_submatcher (Some [0xC911, 0xB2E8, 0x0020, 0xC88C, 0xCE21])
        (js ''left column|middle(?! right)'') (Some [js ''min-width-6'']) grps,
      option_submatcher (Some [0xC911, 0xB2E8, 0x0020, 0xC6B0, 0xCE21])
        (js ''right column|middle(?! left)'') (Some [js ''min-width-6'']) grps,
      option_submatcher (Some [0xD558, 0xB2E8, 0x0020, 0xC88C, 0xCE21])
        (js ''left column|bottom(?! right)'') (Some [js ''min-width-6'']) grps,
      option_submatcher (Some [0xD558, 0xB2E8, 0x0020, 0xC6B0, 0xCE21])
        (js ''right column|bottom(?! left)'') (Some [js ''min-width-6'']) grps] @
     (if js ''Adjacent'' \<in> set (default_arg [] excluded) then []
      else [option_submatcher (Some [0xC778, 0xC811]) (js ''adjacent'')
              (Some [js ''min-width-4'']) grps]) @
     (if js ''Selected'' \<in> set (default_arg [] excluded) then []
      else [option_submatcher (Some [0xC120, 0xD0DD]) (js ''selected'')
              (Some [js ''min-width-4'']) grps]) @
     (if js ''Self'' \<in> set (default_arg [] excluded) then []
      else [option_submatcher (Some [0xC790, 0xC2E0]) (js ''this|own|supported'')
              (Some [js ''min-width-4'']) grps])"
  have result:
    "fst (createPositionsSubmatchers grps (Some False) ur excluded (Some False) st) =
       collect (?friend # ?captain # rest)"
    unfolding createPositionsSubmatchers_def rest_def Let_def
    by (simp add: default_arg_simps universal_suffix_off del: collect.simps)
  have rest: "\<forall>x \<in> set rest. \<not> isl x"
    unfolding rest_def by (simp add: option_submatcher_Inr cell_patterns_parse)
  have "\<forall>x \<in> set (?friend # ?captain # rest). \<not> isl x"
    using rest by (simp add: option_submatcher_Inr cell_patterns_parse)
  then have "collect (?friend # ?captain # rest) = Inr (map projr (?friend # ?captain # rest))"
    by (rule collect_Inr)
  with result have
    "fst (createPositionsSubmatchers grps (Some False) ur excluded (Some False) st) =
       Inr (projr ?friend # projr ?captain # map projr rest)"
    by simp
  moreover have "pattern (projr (new_RegExp p (js ''i''))) = p" if "\<not> isl (new_RegExp p (js ''i''))" for p
    using that by (auto simp add: new_RegExp_def split: sum.splits if_splits)
  ultimately show ?thesis
    by (simp add: option_submatcher_Inr cell_patterns_parse captain_matches)
qed

subsection \<open>Reading literal text\<close>






subsection \<open>An alternative in front of a pattern\<close>

lemma extend_frames_Cons:
  "fst (prepend_frames P (x # a) k) = x # fst (prepend_frames P a k)"
  "snd (prepend_frames P (x # a) k) = snd (prepend_frames P a k)"
  by (cases k; auto)+









lemma bar_extend:
  "prepend_alt P (st\<lparr>prev := NoTerm, alts := x # alts st, cur := []\<rparr>) =
   (prepend_alt P st)\<lparr>prev := NoTerm, alts := x # alts (prepend_alt P st), cur := []\<rparr>"
  by (simp add: prepend_alt_def extend_frames_Cons)









subsection \<open>Matching literal text\<close>





subsection \<open>Patterns made of a literal and the universal pattern\<close>





subsection \<open>One option per entry\<close>


lemma collect_enumerate_D:
  assumes "collect (map f (enumerate n xs)) = Inr ys"
    and "\<And>i x y. f (i, x) = Inr y \<Longrightarrow> Q x y"
  shows "list_all2 Q xs ys"
  using assms(1)
proof (induction xs arbitrary: n ys)
  case Nil
  then show ?case by simp
next
  case (Cons x xs)
  from Cons.prems obtain y zs where y: "f (n, x) = Inr y"
    and zs: "collect (map f (enumerate (Suc n) xs)) = Inr zs" and ys: "ys = y # zs"
    by (auto split: sum.splits)
  from Cons.IH [OF zs] assms(2) [OF y] ys show ?case
    by simp
qed







subsection \<open>The tables of the source\<close>




subsection \<open>Ids are not escaped\<close>






section \<open>Properties of number submatchers\<close>

text \<open>
  Claim C7. The token \<open>?\<close> is extracted as 0, the tokens \<open>completely\<close> and
  \<open>99+\<close> as infinity; so the value of \<open>completely\<close> is greater than every finite
  number and the value of \<open>?\<close> is at least 0.
\<close>

theorem sentinel_tokens_normalize:
  "extract_number (js ''?'') = Finite 0 \<and>
   extract_number (js ''completely'') = PosInfinity \<and>
   extract_number (js ''99+'') = PosInfinity \<and>
   (\<forall>n. satisfies (extract_number (js ''completely'')) Greater n) \<and>
   (\<forall>n. satisfies (extract_number (js ''99+'')) Greater n) \<and>
   satisfies (extract_number (js ''?'')) GreaterEq 0"
proof -
  have q: "extract_number (js ''?'') = Finite 0"
    by (simp add: extract_number_def js_def unknown_to_zero_def parse_decimal_def is_digit_def
        digits_value_def)
  have c: "extract_number (js ''completely'') = PosInfinity"
    and p: "extract_number (js ''99+'') = PosInfinity"
    by (simp_all add: extract_number_def)
  show ?thesis
    by (simp add: q c p)
qed


lemma extract_number_examples:
  "extract_number (js ''2.5'') = Finite (5 / 2)"
  "extract_number (js ''2.?'') = Finite 2"
  "extract_number (js ''3'') = Finite 3"
  by (simp_all add: extract_number_def js_def unknown_to_zero_def parse_decimal_def is_digit_def
      digits_value_def)

end
